theory Spec2Isabelle
  imports
    Main
    "HOL-Library.Char_ord"
    "HOL-Library.List_Lexorder"
    "HOL-Library.AList"
    "HOL-Library.Sublist"
begin

section \<open>The slot scraper of index.js\<close>

text \<open>
  The development follows \<^verbatim>\<open>index.js\<close>: \<^verbatim>\<open>scrapeWebsite\<close> builds the list of dates to
  query, collects the answers in the object \<^verbatim>\<open>results\<close>, \<^verbatim>\<open>parseApiResponse\<close> filters the
  FREE pieces and renders them as HTML, and \<^verbatim>\<open>sendEmail\<close> mails the report or writes it
  to \<^verbatim>\<open>tmp.html\<close>. The older variant of the same file (with \<^verbatim>\<open>blacklistFacilities\<close>) is
  modelled next to it where the two differ.

  Conventions of the model.
  \<^item> A JavaScript \<^verbatim>\<open>Date\<close> is its time value: \<open>Some t\<close> with \<open>t\<close> the milliseconds
    since 1970-01-01T00:00Z, or \<open>None\<close> for an Invalid Date. A piece's \<^verbatim>\<open>ini\<close> and
    \<^verbatim>\<open>end\<close> are the values of \<^verbatim>\<open>new Date(piece.ini)\<close> and \<^verbatim>\<open>new Date(piece.end)\<close>.
  \<^item> The local time zone is a fixed offset from UTC in minutes (\<open>tzOffset\<close>), the same
    during one run.
  \<^item> \<^verbatim>\<open>toLocaleTimeString\<close> is the en-US rendering (the default locale of the
    workflow's runner, and the locale the older variant names), with an ASCII space
    before AM/PM. The long date of a section header, \<^verbatim>\<open>new Date(rawDate).toLocaleDateString(...)\<close>,
    is a parameter (\<open>displayDate\<close>).
  \<^item> A JavaScript object used as a dictionary is an association list in insertion
    order; assigning to a present key replaces the value in place, assigning to an
    absent key appends (\<open>AList.update\<close>).
  \<^item> A payload is typed as the API documents it: a column has a facility name and a
    list of pieces. What the code tests for before use (\<^verbatim>\<open>dayData\<close>, \<^verbatim>\<open>dayData.one\<close>,
    \<^verbatim>\<open>dayData.one.columns\<close>) is optional in the model.
  \<^item> An exception is a value \<open>Inl e\<close>; \<^verbatim>\<open>forEach\<close> stops at the first one.
\<close>

subsection \<open>Numbers and strings\<close>

definition digit :: "nat \<Rightarrow> char" where
  "digit d = ''0123456789'' ! (d mod 10)"

text \<open>\<^verbatim>\<open>Number.prototype.toString\<close> on a natural number.\<close>

fun toString :: "nat \<Rightarrow> string" where
  "toString n = (if n < 10 then [digit n] else toString (n div 10) @ [digit (n mod 10)])"

declare toString.simps [simp del]

text \<open>\<^verbatim>\<open>String.prototype.padStart\<close> with a one-character filler.\<close>

definition padStart :: "nat \<Rightarrow> char \<Rightarrow> string \<Rightarrow> string" where
  "padStart n c s = replicate (n - length s) c @ s"

text \<open>The first string occurs in the second.\<close>

fun includesStr :: "string \<Rightarrow> string \<Rightarrow> bool" where
  "includesStr pat [] = (pat = [])"
| "includesStr pat (c # cs) = (prefix pat (c # cs) \<or> includesStr pat cs)"

subsection \<open>Dates\<close>

datatype error = RangeError

definition error_message :: "error \<Rightarrow> string" where
  "error_message e = (case e of RangeError \<Rightarrow> ''Invalid time value'')"

type_synonym jsDate = "int option"

record env =
  tzOffset :: int
  displayDate :: "string \<Rightarrow> string"

definition msPerDay :: int where
  "msPerDay = 86400000"

definition localTime :: "env \<Rightarrow> int \<Rightarrow> int" where
  "localTime e t = t + tzOffset e * 60000"

definition getHours :: "env \<Rightarrow> int \<Rightarrow> nat" where
  "getHours e t = nat ((localTime e t div 3600000) mod 24)"

definition getMinutes :: "env \<Rightarrow> int \<Rightarrow> nat" where
  "getMinutes e t = nat ((localTime e t div 60000) mod 60)"

text \<open>Day of the week of a day number (days since 1970-01-01, a Thursday): 0 is Sunday.\<close>

definition weekDay :: "int \<Rightarrow> nat" where
  "weekDay d = nat ((d + 4) mod 7)"

definition getDay :: "env \<Rightarrow> int \<Rightarrow> nat" where
  "getDay e t = weekDay (localTime e t div msPerDay)"

text \<open>Year, month and day of a day number in the proleptic Gregorian calendar.\<close>

definition civil :: "int \<Rightarrow> int \<times> nat \<times> nat" where
  "civil z =
    (let z' = z + 719468;
         era = z' div 146097;
         doe = z' mod 146097;
         yoe = (doe - doe div 1460 + doe div 36524 - doe div 146096) div 365;
         doy = doe - (365 * yoe + yoe div 4 - yoe div 100);
         mp = (5 * doy + 2) div 153;
         d = doy - (153 * mp + 2) div 5 + 1;
         m = (if mp < 10 then mp + 3 else mp - 9);
         y = yoe + era * 400 + (if m \<le> 2 then 1 else 0)
     in (y, nat m, nat d))"

text \<open>The date part of \<^verbatim>\<open>toISOString\<close>: four digits for the years 0 to 9999, a sign and
  six digits otherwise.\<close>

definition isoYear :: "int \<Rightarrow> string" where
  "isoYear y =
    (if 0 \<le> y \<and> y \<le> 9999 then padStart 4 CHR ''0'' (toString (nat y))
     else (if y < 0 then ''-'' else ''+'') @ padStart 6 CHR ''0'' (toString (nat \<bar>y\<bar>)))"

definition isoDay :: "int \<Rightarrow> string" where
  "isoDay z =
    (case civil z of
       (y, m, d) \<Rightarrow>
         isoYear y @ ''-'' @ padStart 2 CHR ''0'' (toString m) @ ''-''
           @ padStart 2 CHR ''0'' (toString d))"

definition isoDate :: "int \<Rightarrow> string" where
  "isoDate t = isoDay (t div msPerDay)"

text \<open>\<^verbatim>\<open>d.toISOString().split('T')[0]\<close>; an Invalid Date throws a RangeError.\<close>

definition toISODate :: "jsDate \<Rightarrow> error + string" where
  "toISODate d = (case d of None \<Rightarrow> Inl RangeError | Some t \<Rightarrow> Inr (isoDate t))"

text \<open>\<^verbatim>\<open>formatDate\<close> of index.js, on a valid date.\<close>

definition formatDate :: "int \<Rightarrow> string" where
  "formatDate t = isoDate t"

text \<open>The \<^verbatim>\<open>startTime\<close> of \<^verbatim>\<open>parseApiResponse\<close>: hours and minutes of the local time, each
  padded to two digits. On an Invalid Date both are NaN, which \<^verbatim>\<open>padStart\<close> leaves as it is.\<close>

definition startTime :: "env \<Rightarrow> jsDate \<Rightarrow> string" where
  "startTime e d =
    (case d of
       None \<Rightarrow> padStart 2 CHR ''0'' ''NaN'' @ '':'' @ padStart 2 CHR ''0'' ''NaN''
     | Some t \<Rightarrow>
         padStart 2 CHR ''0'' (toString (getHours e t)) @ '':''
           @ padStart 2 CHR ''0'' (toString (getMinutes e t)))"

text \<open>\<^verbatim>\<open>toLocaleTimeString(undefined, {hour: '2-digit', minute: '2-digit', hour12: true})\<close>.\<close>

definition toLocaleTimeString :: "env \<Rightarrow> jsDate \<Rightarrow> string" where
  "toLocaleTimeString e d =
    (case d of
       None \<Rightarrow> ''Invalid Date''
     | Some t \<Rightarrow>
         (let h = getHours e t;
              h12 = (if h mod 12 = 0 then 12 else h mod 12)
          in padStart 2 CHR ''0'' (toString h12) @ '':''
               @ padStart 2 CHR ''0'' (toString (getMinutes e t)) @ '' ''
               @ (if h < 12 then ''AM'' else ''PM'')))"

subsection \<open>Configuration and payloads\<close>

record config =
  whitelistFacilities :: "string list"
  whitelistedStartTimes :: "string list"
  email_from :: string
  email_to :: string

text \<open>The \<^verbatim>\<open>config\<close> of index.js; the recipient comes from the environment.\<close>

definition config :: "string \<Rightarrow> config" where
  "config emailUser =
    \<lparr> whitelistFacilities = [''Pista 1'', ''Pista 2'', ''Pista Cristal'', ''Pista San Pablo''],
      whitelistedStartTimes = [''19:00'', ''19:30'', ''20:30'', ''21:00'', ''22:00''],
      email_from = ''doesntmatter@gmail.com'',
      email_to = emailUser \<rparr>"

record piece =
  ini :: jsDate
  fin :: jsDate
  mark :: string

record column =
  facility_name :: string
  pieces :: "piece list"

record dayOne =
  one_date :: string
  columns :: "column list option"

text \<open>\<open>None\<close> stands for a \<^verbatim>\<open>dayData\<close> that is falsy or has no \<^verbatim>\<open>one\<close>.\<close>

type_synonym dayData = "dayOne option"

record freeSlot =
  facility :: string
  slot_start :: string
  slot_end :: string
  slot_date :: string

subsection \<open>The filter of parseApiResponse\<close>

text \<open>\<^verbatim>\<open>xs.forEach(f)\<close> where \<open>f\<close> updates a state and may throw.\<close>

fun forEach :: "('s \<Rightarrow> 'a \<Rightarrow> error + 's) \<Rightarrow> 'a list \<Rightarrow> 's \<Rightarrow> error + 's" where
  "forEach f [] s = Inr s"
| "forEach f (x # xs) s = (case f s x of Inl e \<Rightarrow> Inl e | Inr s' \<Rightarrow> forEach f xs s')"

text \<open>The body of \<^verbatim>\<open>column.pieces.forEach\<close>. The state is \<^verbatim>\<open>freeSlots\<close> and
  \<^verbatim>\<open>totalSlotCount\<close>; \<open>lst\<close> is the facility list the column test used, \<open>bypass\<close> is
  \<^verbatim>\<open>isDryRun\<close>.\<close>

definition pieceStep ::
  "env \<Rightarrow> string list \<Rightarrow> bool \<Rightarrow> string \<Rightarrow> freeSlot list \<times> nat \<Rightarrow> piece
    \<Rightarrow> error + (freeSlot list \<times> nat)" where
  "pieceStep e tms bypass facilityName s p =
    (if mark p = ''FREE'' then
       (if startTime e (ini p) \<notin> set tms \<and> \<not> bypass then Inr s
        else
          (let formattedStartTime = toLocaleTimeString e (ini p);
               endTime = toLocaleTimeString e (fin p)
           in case toISODate (ini p) of
                Inl err \<Rightarrow> Inl err
              | Inr d \<Rightarrow>
                  Inr (fst s @ [\<lparr> facility = facilityName, slot_start = formattedStartTime,
                                  slot_end = endTime, slot_date = d \<rparr>],
                       snd s + 1)))
     else Inr s)"

text \<open>The body of \<^verbatim>\<open>dayData.one.columns.forEach\<close>.\<close>

definition columnStep ::
  "env \<Rightarrow> string list \<Rightarrow> string list \<Rightarrow> bool \<Rightarrow> freeSlot list \<times> nat \<Rightarrow> column
    \<Rightarrow> error + (freeSlot list \<times> nat)" where
  "columnStep e lst tms bypass s c =
    (let facilityName = facility_name c
     in if facilityName \<notin> set lst \<and> \<not> bypass then Inr s
        else forEach (pieceStep e tms bypass facilityName) (pieces c) s)"

text \<open>The body of \<^verbatim>\<open>Object.keys(data).forEach\<close>. The state is \<^verbatim>\<open>availableSlots\<close> and
  \<^verbatim>\<open>totalSlotCount\<close>.\<close>

definition dayStep ::
  "env \<Rightarrow> string list \<Rightarrow> string list \<Rightarrow> bool \<Rightarrow> (string \<times> freeSlot list) list \<times> nat
    \<Rightarrow> string \<times> dayData \<Rightarrow> error + ((string \<times> freeSlot list) list \<times> nat)" where
  "dayStep e lst tms bypass s kv =
    (case snd kv of
       None \<Rightarrow> Inr s
     | Some one \<Rightarrow>
         (case columns one of
            None \<Rightarrow> Inr s
          | Some cols \<Rightarrow>
              (case forEach (columnStep e lst tms bypass) cols ([], snd s) of
                 Inl err \<Rightarrow> Inl err
               | Inr (freeSlots, n) \<Rightarrow>
                   if length freeSlots > 0
                   then Inr (AList.update (one_date one) freeSlots (fst s), n)
                   else Inr (fst s, n))))"

text \<open>The first half of \<^verbatim>\<open>parseApiResponse\<close>: from \<^verbatim>\<open>data\<close> to \<^verbatim>\<open>availableSlots\<close> and
  \<^verbatim>\<open>totalSlotCount\<close>.\<close>

definition collectSlots ::
  "env \<Rightarrow> string list \<Rightarrow> string list \<Rightarrow> bool \<Rightarrow> (string \<times> dayData) list
    \<Rightarrow> error + ((string \<times> freeSlot list) list \<times> nat)" where
  "collectSlots e lst tms bypass data = forEach (dayStep e lst tms bypass) data ([], 0)"

subsection \<open>The renderer of parseApiResponse\<close>

definition noSlotsNotice :: string where
  "noSlotsNotice = ''<p><strong>No available slots found</strong></p>''"

definition tableOpen :: string where
  \<open>tableOpen =
    ''<table border="1" cellpadding="5" style="border-collapse: collapse; width: 100%;">''\<close>

text \<open>The body of \<^verbatim>\<open>availableSlots[rawDate].forEach\<close>: \<^verbatim>\<open>timeSlots\<close> maps a start label
  to the facilities pushed under it.\<close>

definition groupStep :: "(string \<times> string list) list \<Rightarrow> freeSlot \<Rightarrow> (string \<times> string list) list" where
  "groupStep timeSlots slot =
    AList.map_entry (slot_start slot) (\<lambda>fs. fs @ [facility slot])
      (if map_of timeSlots (slot_start slot) = None
       then AList.update (slot_start slot) [] timeSlots
       else timeSlots)"

definition groupByStart :: "freeSlot list \<Rightarrow> (string \<times> string list) list" where
  "groupByStart slots = foldl groupStep [] slots"

text \<open>Reading \<^verbatim>\<open>obj[key]\<close> for a key taken from \<^verbatim>\<open>Object.keys(obj)\<close>; the default is
  never reached there.\<close>

definition valuesAt :: "(string \<times> 'a list) list \<Rightarrow> string \<Rightarrow> 'a list" where
  "valuesAt obj k = (case map_of obj k of None \<Rightarrow> [] | Some v \<Rightarrow> v)"

text \<open>One cell of a row: the label when \<^verbatim>\<open>timeSlots[time].includes(facility)\<close>.\<close>

definition renderCell :: "string list \<Rightarrow> string \<Rightarrow> string \<Rightarrow> string" where
  "renderCell present time fac =
    (if fac \<in> set present then ''<td>'' @ time @ ''</td>'' else ''<td></td>'')"

definition rowCells :: "string list \<Rightarrow> (string \<times> string list) list \<Rightarrow> string \<Rightarrow> string list" where
  "rowCells facs timeSlots time = map (renderCell (valuesAt timeSlots time) time) facs"

definition renderRow :: "string list \<Rightarrow> (string \<times> string list) list \<Rightarrow> string \<Rightarrow> string" where
  "renderRow facs timeSlots time = ''<tr>'' @ concat (rowCells facs timeSlots time) @ ''</tr>''"

text \<open>\<^verbatim>\<open>Object.keys(timeSlots).sort()\<close>: the default sort compares strings by code unit.\<close>

definition sortedTimes :: "freeSlot list \<Rightarrow> string list" where
  "sortedTimes slots = sort (map fst (groupByStart slots))"

definition renderTable :: "string list \<Rightarrow> freeSlot list \<Rightarrow> string" where
  "renderTable facs slots =
    tableOpen @ ''<tr>'' @ concat (map (\<lambda>f. ''<th>'' @ f @ ''</th>'') facs) @ ''</tr>''
      @ concat (map (renderRow facs (groupByStart slots)) (sortedTimes slots))
      @ ''</table><br>''"

definition renderSection :: "env \<Rightarrow> string list \<Rightarrow> (string \<times> freeSlot list) list \<Rightarrow> string \<Rightarrow> string" where
  "renderSection e facs availableSlots rawDate =
    ''<h3>'' @ displayDate e rawDate @ ''</h3>''
      @ renderTable facs (valuesAt availableSlots rawDate)"

definition renderSlots :: "env \<Rightarrow> string list \<Rightarrow> (string \<times> freeSlot list) list \<Rightarrow> string" where
  "renderSlots e facs availableSlots =
    (if length (map fst availableSlots) = 0 then noSlotsNotice
     else concat (map (renderSection e facs availableSlots) (sort (map fst availableSlots))))"

record parsed =
  htmlContent :: string
  slotCount :: nat

definition parseApiResponse :: "env \<Rightarrow> config \<Rightarrow> bool \<Rightarrow> (string \<times> dayData) list \<Rightarrow> parsed" where
  "parseApiResponse e cfg isDryRun data =
    (case collectSlots e (whitelistFacilities cfg) (whitelistedStartTimes cfg) isDryRun data of
       Inl err \<Rightarrow>
         \<lparr> htmlContent = ''<p>Error parsing API response: '' @ error_message err @ ''</p>'',
           slotCount = 0 \<rparr>
     | Inr (availableSlots, totalSlotCount) \<Rightarrow>
         \<lparr> htmlContent = renderSlots e (whitelistFacilities cfg) availableSlots,
           slotCount = totalSlotCount \<rparr>)"

subsection \<open>sendEmail\<close>

record mailOptions =
  mail_from :: string
  mail_to :: string
  subject :: string
  html :: string

text \<open>What the run does to the outside: a message handed to \<^verbatim>\<open>transporter.sendMail\<close>, or a
  file written with \<^verbatim>\<open>fs.writeFileSync\<close>. A failure of either is caught and logged.\<close>

datatype effect = SendMail mailOptions | WriteFile string string

definition newline :: string where
  "newline = [CHR 0x0A]"

definition mailBody :: "string \<Rightarrow> string \<Rightarrow> string" where
  \<open>mailBody content tournamentData =
    newline @ ''      <h3>Available Slots:</h3>'' @ newline
      @ ''      <pre style="background-color: #f4f4f4; padding: 10px; overflow: auto;">''
      @ content @ ''</pre>'' @ newline
      @ ''      <h3>Leaderboard:</h3>'' @ newline
      @ ''      <pre style="background-color: #f2f2f2; padding: 10px; overflow: auto;">''
      @ tournamentData @ ''</pre>'' @ newline @ ''    ''\<close>

definition buildMail :: "config \<Rightarrow> string \<Rightarrow> nat \<Rightarrow> string \<Rightarrow> mailOptions" where
  "buildMail cfg content n tournamentData =
    \<lparr> mail_from = email_from cfg,
      mail_to = email_to cfg,
      subject = toString n @ '' free slots available'',
      html = mailBody content tournamentData \<rparr>"

definition sendEmail :: "config \<Rightarrow> bool \<Rightarrow> string \<Rightarrow> nat \<Rightarrow> string \<Rightarrow> effect list" where
  "sendEmail cfg isDryRun content n tournamentData =
    (let m = buildMail cfg content n tournamentData
     in if isDryRun then [WriteFile ''tmp.html'' (html m)] else [SendMail m])"

subsection \<open>scrapeWebsite\<close>

text \<open>The loop that builds the requests: \<open>horizon\<close> is 8 in both variants; index.js skips
  the weekends (\<open>skipWeekends\<close>), the older variant does not. \<^verbatim>\<open>new Date()\<close> reads the
  same instant \<open>now\<close> in every iteration, and \<^verbatim>\<open>setDate(getDate() + i)\<close> moves the local
  date by \<open>i\<close> days at the same time of day.\<close>

definition plusDays :: "int \<Rightarrow> nat \<Rightarrow> int" where
  "plusDays now i = now + int i * msPerDay"

function dateLoop :: "env \<Rightarrow> int \<Rightarrow> bool \<Rightarrow> nat \<Rightarrow> nat \<Rightarrow> string list \<Rightarrow> string list" where
  "dateLoop e now skipWeekends horizon i requests =
    (if i < horizon then
       (let date = plusDays now i
        in if skipWeekends \<and> (getDay e date = 0 \<or> getDay e date = 6)
           then dateLoop e now skipWeekends horizon (Suc i) requests
           else dateLoop e now skipWeekends horizon (Suc i) (requests @ [formatDate date]))
     else requests)"
  by pat_completeness auto
termination
  by (relation "measure (\<lambda>(e, now, skipWeekends, horizon, i, requests). horizon - i)") auto

declare dateLoop.simps [simp del]

definition queryDates :: "env \<Rightarrow> int \<Rightarrow> bool \<Rightarrow> nat \<Rightarrow> string list" where
  "queryDates e now skipWeekends horizon = dateLoop e now skipWeekends horizon 0 []"

definition requestDates :: "env \<Rightarrow> int \<Rightarrow> string list" where
  "requestDates e now = queryDates e now True 8"

text \<open>How one request settles: \<^verbatim>\<open>then\<close> stores the payload under the date, \<^verbatim>\<open>catch\<close> logs
  the error and stores nothing.\<close>

datatype response = Fulfilled dayData | Rejected string

definition settle :: "(string \<times> dayData) list \<Rightarrow> string \<times> response \<Rightarrow> (string \<times> dayData) list" where
  "settle results r =
    (case snd r of
       Fulfilled payload \<Rightarrow> AList.update (fst r) payload results
     | Rejected msg \<Rightarrow> results)"

text \<open>\<^verbatim>\<open>scrapeWebsite\<close> after the loop: \<open>settled\<close> lists the requests, one for each date of
  \<open>requestDates\<close>, with their outcomes in the order they settled (each promise catches
  its own rejection, so \<^verbatim>\<open>Promise.all\<close> waits for all of them); \<open>tournamentHtml\<close> is what
  \<^verbatim>\<open>scrapeTournamentData\<close> returned (it catches its own errors). The result is what the
  run does to the outside.\<close>

definition resultsOf :: "(string \<times> response) list \<Rightarrow> (string \<times> dayData) list" where
  "resultsOf settled = foldl settle [] settled"

definition scrapeWebsite ::
  "env \<Rightarrow> config \<Rightarrow> bool \<Rightarrow> (string \<times> response) list \<Rightarrow> string \<Rightarrow> effect list" where
  "scrapeWebsite e cfg isDryRun settled tournamentHtml =
    (let r = parseApiResponse e cfg isDryRun (resultsOf settled)
     in sendEmail cfg isDryRun (htmlContent r) (slotCount r) tournamentHtml)"

subsection \<open>The older variant\<close>




definition requestDates_old :: "env \<Rightarrow> int \<Rightarrow> string list" where
  "requestDates_old e now = queryDates e now False 8"

subsection \<open>Notions used to state the properties\<close>

text \<open>The slot that \<^verbatim>\<open>freeSlots.push\<close> builds from a piece with a valid start.\<close>

definition slotOf :: "env \<Rightarrow> string \<Rightarrow> piece \<Rightarrow> freeSlot" where
  "slotOf e facilityName p =
    \<lparr> facility = facilityName,
      slot_start = toLocaleTimeString e (ini p),
      slot_end = toLocaleTimeString e (fin p),
      slot_date = (case ini p of None \<Rightarrow> [] | Some t \<Rightarrow> isoDate t) \<rparr>"

text \<open>The filter as the specification words it: the mark is FREE, and the facility and
  the start time are listed unless the dry-run flag bypasses both tests.\<close>

definition admitted ::
  "env \<Rightarrow> string list \<Rightarrow> string list \<Rightarrow> bool \<Rightarrow> column \<Rightarrow> piece \<Rightarrow> bool" where
  "admitted e lst tms bypass c p \<longleftrightarrow>
    mark p = ''FREE'' \<and>
    (bypass \<or> (facility_name c \<in> set lst \<and> startTime e (ini p) \<in> set tms))"

definition survivors ::
  "env \<Rightarrow> string list \<Rightarrow> string list \<Rightarrow> bool \<Rightarrow> column list \<Rightarrow> (column \<times> piece) list" where
  "survivors e lst tms bypass cols =
    concat (map (\<lambda>c. map (Pair c) (filter (admitted e lst tms bypass c) (pieces c))) cols)"

definition expectedSlots ::
  "env \<Rightarrow> string list \<Rightarrow> string list \<Rightarrow> bool \<Rightarrow> column list \<Rightarrow> freeSlot list" where
  "expectedSlots e lst tms bypass cols =
    map (\<lambda>(c, p). slotOf e (facility_name c) p) (survivors e lst tms bypass cols)"

definition slotsOfDay ::
  "env \<Rightarrow> string list \<Rightarrow> string list \<Rightarrow> bool \<Rightarrow> dayData \<Rightarrow> freeSlot list" where
  "slotsOfDay e lst tms bypass dd =
    (case dd of
       None \<Rightarrow> []
     | Some one \<Rightarrow>
         (case columns one of None \<Rightarrow> [] | Some cols \<Rightarrow> expectedSlots e lst tms bypass cols))"

text \<open>A payload without its pieces that are not FREE.\<close>

definition freePieces :: "column \<Rightarrow> column" where
  "freePieces c = c\<lparr>pieces := filter (\<lambda>p. mark p = ''FREE'') (pieces c)\<rparr>"

definition freeOnly :: "string \<times> dayData \<Rightarrow> string \<times> dayData" where
  "freeOnly kv =
    (fst kv, map_option (\<lambda>one. one\<lparr>columns := map_option (map freePieces) (columns one)\<rparr>) (snd kv))"




text \<open>The section header of the examples: \<^verbatim>\<open>new Date(rawDate).toLocaleDateString(undefined,
  {weekday: 'long', year: 'numeric', month: 'long', day: 'numeric'})\<close> in en-US, for a key
  of the form YYYY-MM-DD with a valid date of the years 1 to 9999, which \<^verbatim>\<open>Date\<close> reads as
  midnight UTC. Any other key is shown as Invalid Date here; the properties below hold
  for every \<open>displayDate\<close>.\<close>

definition digitValue :: "char \<Rightarrow> nat option" where
  "digitValue c =
    (let n = (of_char c :: nat) in if 48 \<le> n \<and> n \<le> 57 then Some (n - 48) else None)"

fun number :: "char list \<Rightarrow> nat option" where
  "number [] = None"
| "number [c] = digitValue c"
| "number cs =
    (case (number (butlast cs), digitValue (last cs)) of
       (Some n, Some d) \<Rightarrow> Some (10 * n + d)
     | _ \<Rightarrow> None)"

definition isLeap :: "nat \<Rightarrow> bool" where
  "isLeap y \<longleftrightarrow> y mod 4 = 0 \<and> (y mod 100 \<noteq> 0 \<or> y mod 400 = 0)"

definition daysInMonth :: "nat \<Rightarrow> nat \<Rightarrow> nat" where
  "daysInMonth y m =
    (if m = 2 then (if isLeap y then 29 else 28)
     else if m = 4 \<or> m = 6 \<or> m = 9 \<or> m = 11 then 30 else 31)"

definition daysFromCivil :: "int \<Rightarrow> int \<Rightarrow> int \<Rightarrow> int" where
  "daysFromCivil y m d =
    (let y' = (if m \<le> 2 then y - 1 else y);
         era = y' div 400;
         yoe = y' mod 400;
         doy = (153 * (if m > 2 then m - 3 else m + 9) + 2) div 5 + d - 1;
         doe = yoe * 365 + yoe div 4 - yoe div 100 + doy
     in era * 146097 + doe - 719468)"

definition parseDateOnly :: "string \<Rightarrow> int option" where
  "parseDateOnly s =
    (case s of
       [y1, y2, y3, y4, s1, m1, m2, s2, d1, d2] \<Rightarrow>
         (case (number [y1, y2, y3, y4], number [m1, m2], number [d1, d2]) of
            (Some y, Some m, Some d) \<Rightarrow>
              if s1 = CHR ''-'' \<and> s2 = CHR ''-'' \<and> 1 \<le> y \<and> 1 \<le> m \<and> m \<le> 12
                 \<and> 1 \<le> d \<and> d \<le> daysInMonth y m
              then Some (daysFromCivil (int y) (int m) (int d) * msPerDay)
              else None
          | _ \<Rightarrow> None)
     | _ \<Rightarrow> None)"

definition weekdayName :: "nat \<Rightarrow> string" where
  "weekdayName n =
    [''Sunday'', ''Monday'', ''Tuesday'', ''Wednesday'', ''Thursday'', ''Friday'', ''Saturday'']
      ! (n mod 7)"

definition monthName :: "nat \<Rightarrow> string" where
  "monthName m =
    [''January'', ''February'', ''March'', ''April'', ''May'', ''June'', ''July'', ''August'',
     ''September'', ''October'', ''November'', ''December''] ! ((m - 1) mod 12)"

definition longDate :: "int \<Rightarrow> string \<Rightarrow> string" where
  "longDate offset rawDate =
    (case parseDateOnly rawDate of
       None \<Rightarrow> ''Invalid Date''
     | Some t \<Rightarrow>
         (let z = (t + offset * 60000) div msPerDay
          in case civil z of
               (y, m, d) \<Rightarrow>
                 weekdayName (weekDay z) @ '', '' @ monthName m @ '' '' @ toString d @ '', ''
                   @ toString (nat y)))"

text \<open>Inputs of the examples: a runner in UTC, a machine two hours east of it.\<close>

definition utcEnv :: env where
  "utcEnv = \<lparr> tzOffset = 0, displayDate = longDate 0 \<rparr>"

definition madridEnv :: env where
  "madridEnv = \<lparr> tzOffset = 120, displayDate = longDate 120 \<rparr>"

text \<open>A piece of an hour and a half that starts at \<open>t\<close>, free or taken; a column; the
  payload answered for the date \<open>d\<close>.\<close>

definition freePiece :: "int \<Rightarrow> piece" where
  "freePiece t = \<lparr> ini = Some t, fin = Some (t + 5400000), mark = ''FREE'' \<rparr>"

definition dayOf :: "string \<Rightarrow> column list \<Rightarrow> string \<times> dayData" where
  "dayOf d cols = (d, Some \<lparr> one_date = d, columns = Some cols \<rparr>)"

definition busyPiece :: "int \<Rightarrow> piece" where
  "busyPiece t = \<lparr> ini = Some t, fin = Some (t + 5400000), mark = ''BUSY'' \<rparr>"

definition court :: "string \<Rightarrow> piece list \<Rightarrow> column" where
  "court name ps = \<lparr> facility_name = name, pieces = ps \<rparr>"

text \<open>A payload for 2024-05-01: court 1 is free at 19:00 and at 13:00 UTC and taken at
  21:00; court 9 is free at 19:00.\<close>

definition eveningDay :: "string \<times> dayData" where
  "eveningDay =
    dayOf ''2024-05-01''
      [court ''Pista 1''
         [freePiece 1714590000000, busyPiece 1714597200000, freePiece 1714568400000],
       court ''Pista 9'' [freePiece 1714590000000]]"


section \<open>Properties\<close>

subsection \<open>What the three nested loops compute\<close>

lemma pieceStep_cases:
  "pieceStep e tms b f s p =
    (if mark p = ''FREE'' \<and> (b \<or> startTime e (ini p) \<in> set tms)
     then (case ini p of None \<Rightarrow> Inl RangeError
           | Some t \<Rightarrow> Inr (fst s @ [slotOf e f p], snd s + 1))
     else Inr s)"
  by (auto simp: pieceStep_def toISODate_def slotOf_def Let_def split: option.splits)

lemma forEach_pieceStep:
  "forEach (pieceStep e tms b f) ps s = Inr s' \<Longrightarrow>
    fst s' = fst s @ map (slotOf e f) (filter (\<lambda>p. mark p = ''FREE'' \<and> (b \<or> startTime e (ini p) \<in> set tms)) ps)
    \<and> snd s' = snd s + length (filter (\<lambda>p. mark p = ''FREE'' \<and> (b \<or> startTime e (ini p) \<in> set tms)) ps)
    \<and> (\<forall>p \<in> set ps. mark p = ''FREE'' \<and> (b \<or> startTime e (ini p) \<in> set tms) \<longrightarrow> ini p \<noteq> None)"
proof (induction ps arbitrary: s)
  case Nil
  then show ?case by simp
next
  case (Cons p ps)
  from Cons.prems obtain s1 where
    s1: "pieceStep e tms b f s p = Inr s1" and
    rest: "forEach (pieceStep e tms b f) ps s1 = Inr s'"
    by (auto split: sum.splits)
  show ?case
  proof (cases "mark p = ''FREE'' \<and> (b \<or> startTime e (ini p) \<in> set tms)")
    case True
    with s1 obtain t where t: "ini p = Some t"
      by (cases "ini p") (auto simp: pieceStep_cases)
    with True s1 have "s1 = (fst s @ [slotOf e f p], snd s + 1)"
      by (auto simp: pieceStep_cases)
    with Cons.IH [OF rest] True t show ?thesis by simp
  next
    case False
    with s1 have "s1 = s"
      by (auto simp: pieceStep_cases)
    with Cons.IH [OF rest] False show ?thesis by auto
  qed
qed

lemma survivors_Cons:
  "survivors e lst tms b (c # cols) =
    map (Pair c) (filter (admitted e lst tms b c) (pieces c)) @ survivors e lst tms b cols"
  by (simp add: survivors_def)

lemma admitted_filter:
  "filter (admitted e lst tms b c) ps =
    (if facility_name c \<notin> set lst \<and> \<not> b then []
     else filter (\<lambda>p. mark p = ''FREE'' \<and> (b \<or> startTime e (ini p) \<in> set tms)) ps)"
  by (induction ps) (auto simp: admitted_def)

lemma forEach_columnStep:
  "forEach (columnStep e lst tms b) cols s = Inr s' \<Longrightarrow>
    fst s' = fst s @ expectedSlots e lst tms b cols
    \<and> snd s' = snd s + length (expectedSlots e lst tms b cols)
    \<and> (\<forall>(c, p) \<in> set (survivors e lst tms b cols). ini p \<noteq> None)"
proof (induction cols arbitrary: s)
  case Nil
  then show ?case by (simp add: expectedSlots_def survivors_def)
next
  case (Cons c cols)
  from Cons.prems obtain s1 where
    s1: "columnStep e lst tms b s c = Inr s1" and
    rest: "forEach (columnStep e lst tms b) cols s1 = Inr s'"
    by (auto split: sum.splits)
  have here: "fst s1 = fst s @ map (slotOf e (facility_name c)) (filter (admitted e lst tms b c) (pieces c))
      \<and> snd s1 = snd s + length (filter (admitted e lst tms b c) (pieces c))
      \<and> (\<forall>p \<in> set (filter (admitted e lst tms b c) (pieces c)). ini p \<noteq> None)"
  proof (cases "facility_name c \<notin> set lst \<and> \<not> b")
    case True
    with s1 show ?thesis by (auto simp: columnStep_def admitted_filter)
  next
    case False
    with s1 have "forEach (pieceStep e tms b (facility_name c)) (pieces c) s = Inr s1"
      by (auto simp: columnStep_def Let_def)
    from forEach_pieceStep [OF this] False show ?thesis
      by (auto simp: admitted_filter)
  qed
  from Cons.IH [OF rest] here show ?case
    by (auto simp: expectedSlots_def survivors_Cons comp_def)
qed


lemma set_update_subset: "set (AList.update k v al) \<subseteq> insert (k, v) (set al)"
  by (induction al) auto

lemma nil_update: "([] = AList.update k v al) = False"
  by (induction al) auto

lemma dayStep_Inr:
  assumes "dayStep e lst tms b s kv = Inr s'"
  shows "snd s' = snd s + length (slotsOfDay e lst tms b (snd kv))"
    and "(slotsOfDay e lst tms b (snd kv) = [] \<and> fst s' = fst s) \<or>
         (\<exists>one cols. snd kv = Some one \<and> columns one = Some cols
            \<and> expectedSlots e lst tms b cols \<noteq> []
            \<and> fst s' = AList.update (one_date one) (expectedSlots e lst tms b cols) (fst s)
            \<and> (\<forall>(c, p) \<in> set (survivors e lst tms b cols). ini p \<noteq> None))"
proof -
  show "snd s' = snd s + length (slotsOfDay e lst tms b (snd kv))"
    using assms
    by (auto simp: dayStep_def slotsOfDay_def
        split: option.splits sum.splits prod.splits if_splits
        dest!: forEach_columnStep)
  show "(slotsOfDay e lst tms b (snd kv) = [] \<and> fst s' = fst s) \<or>
         (\<exists>one cols. snd kv = Some one \<and> columns one = Some cols
            \<and> expectedSlots e lst tms b cols \<noteq> []
            \<and> fst s' = AList.update (one_date one) (expectedSlots e lst tms b cols) (fst s)
            \<and> (\<forall>(c, p) \<in> set (survivors e lst tms b cols). ini p \<noteq> None))"
    using assms
    by (auto simp: dayStep_def slotsOfDay_def
        split: option.splits sum.splits prod.splits if_splits
        dest!: forEach_columnStep)
qed

lemma forEach_dayStep:
  "forEach (dayStep e lst tms b) data s = Inr s' \<Longrightarrow>
    snd s' = snd s + sum_list (map (\<lambda>kv. length (slotsOfDay e lst tms b (snd kv))) data)
    \<and> (\<forall>(k, slots) \<in> set (fst s'). (k, slots) \<in> set (fst s) \<or>
          (\<exists>d one cols. (d, Some one) \<in> set data \<and> columns one = Some cols
             \<and> k = one_date one \<and> slots = expectedSlots e lst tms b cols \<and> slots \<noteq> []
             \<and> (\<forall>(c, p) \<in> set (survivors e lst tms b cols). ini p \<noteq> None)))
    \<and> (fst s' = [] \<longleftrightarrow> fst s = [] \<and> (\<forall>kv \<in> set data. slotsOfDay e lst tms b (snd kv) = []))"
proof (induction data arbitrary: s)
  case Nil
  then show ?case by auto
next
  case (Cons kv data)
  from Cons.prems obtain s1 where
    s1: "dayStep e lst tms b s kv = Inr s1" and
    rest: "forEach (dayStep e lst tms b) data s1 = Inr s'"
    by (auto split: sum.splits)
  note ih = Cons.IH [OF rest]
  note hd = dayStep_Inr [OF s1]
  have count: "snd s' = snd s + sum_list (map (\<lambda>kv. length (slotsOfDay e lst tms b (snd kv))) (kv # data))"
    using ih hd(1) by simp
  have empty: "fst s' = [] \<longleftrightarrow> fst s = [] \<and> (\<forall>kv \<in> set (kv # data). slotsOfDay e lst tms b (snd kv) = [])"
    using ih hd(2) by (auto simp: slotsOfDay_def nil_update)
  have entries: "\<forall>(k, slots) \<in> set (fst s'). (k, slots) \<in> set (fst s) \<or>
          (\<exists>d one cols. (d, Some one) \<in> set (kv # data) \<and> columns one = Some cols
             \<and> k = one_date one \<and> slots = expectedSlots e lst tms b cols \<and> slots \<noteq> []
             \<and> (\<forall>(c, p) \<in> set (survivors e lst tms b cols). ini p \<noteq> None))"
  proof (clarify)
    fix k slots
    assume in': "(k, slots) \<in> set (fst s')"
      and notold: "\<not> (\<exists>d one cols. (d, Some one) \<in> set (kv # data) \<and> columns one = Some cols
             \<and> k = one_date one \<and> slots = expectedSlots e lst tms b cols \<and> slots \<noteq> []
             \<and> (\<forall>(c, p) \<in> set (survivors e lst tms b cols). ini p \<noteq> None))"
    from ih in' have "(k, slots) \<in> set (fst s1) \<or>
          (\<exists>d one cols. (d, Some one) \<in> set data \<and> columns one = Some cols
             \<and> k = one_date one \<and> slots = expectedSlots e lst tms b cols \<and> slots \<noteq> []
             \<and> (\<forall>(c, p) \<in> set (survivors e lst tms b cols). ini p \<noteq> None))"
      by blast
    then have in1: "(k, slots) \<in> set (fst s1)"
    proof
      assume "(k, slots) \<in> set (fst s1)"
      then show ?thesis .
    next
      assume "\<exists>d one cols. (d, Some one) \<in> set data \<and> columns one = Some cols
             \<and> k = one_date one \<and> slots = expectedSlots e lst tms b cols \<and> slots \<noteq> []
             \<and> (\<forall>(c, p) \<in> set (survivors e lst tms b cols). ini p \<noteq> None)"
      then obtain d one cols where "(d, Some one) \<in> set (kv # data)" "columns one = Some cols"
        "k = one_date one" "slots = expectedSlots e lst tms b cols" "slots \<noteq> []"
        "\<forall>(c, p) \<in> set (survivors e lst tms b cols). ini p \<noteq> None"
        by auto
      with notold show ?thesis by blast
    qed
    from hd(2) show "(k, slots) \<in> set (fst s)"
    proof
      assume "slotsOfDay e lst tms b (snd kv) = [] \<and> fst s1 = fst s"
      with in1 show ?thesis by simp
    next
      assume "\<exists>one cols. snd kv = Some one \<and> columns one = Some cols
            \<and> expectedSlots e lst tms b cols \<noteq> []
            \<and> fst s1 = AList.update (one_date one) (expectedSlots e lst tms b cols) (fst s)
            \<and> (\<forall>(c, p) \<in> set (survivors e lst tms b cols). ini p \<noteq> None)"
      then obtain one cols where oc: "snd kv = Some one" "columns one = Some cols"
        "expectedSlots e lst tms b cols \<noteq> []"
        "fst s1 = AList.update (one_date one) (expectedSlots e lst tms b cols) (fst s)"
        "\<forall>(c, p) \<in> set (survivors e lst tms b cols). ini p \<noteq> None"
        by blast
      from in1 oc(4) set_update_subset [of "one_date one" "expectedSlots e lst tms b cols" "fst s"]
      have "(k, slots) = (one_date one, expectedSlots e lst tms b cols) \<or> (k, slots) \<in> set (fst s)"
        by auto
      then show ?thesis
      proof
        assume eq: "(k, slots) = (one_date one, expectedSlots e lst tms b cols)"
        have "(fst kv, Some one) \<in> set (kv # data)" using oc(1) by (cases kv) auto
        with eq oc notold show ?thesis by blast
      qed
    qed
  qed
  from count entries empty show ?case by blast
qed


lemma collectSlots_count:
  assumes "collectSlots e lst tms b data = Inr (availableSlots, n)"
  shows "n = sum_list (map (\<lambda>kv. length (slotsOfDay e lst tms b (snd kv))) data)"
  using forEach_dayStep [of e lst tms b data "([], 0)" "(availableSlots, n)"] assms
  unfolding collectSlots_def by simp

lemma collectSlots_empty:
  assumes "collectSlots e lst tms b data = Inr (availableSlots, n)"
  shows "availableSlots = [] \<longleftrightarrow> n = 0"
proof -
  from forEach_dayStep [of e lst tms b data "([], 0)" "(availableSlots, n)"] assms
  have "availableSlots = [] \<longleftrightarrow> (\<forall>kv \<in> set data. slotsOfDay e lst tms b (snd kv) = [])"
    unfolding collectSlots_def by simp
  also have "\<dots> \<longleftrightarrow> sum_list (map (\<lambda>kv. length (slotsOfDay e lst tms b (snd kv))) data) = 0"
    by (induction data) auto
  also have "\<dots> \<longleftrightarrow> n = 0"
    using collectSlots_count [OF assms] by simp
  finally show ?thesis .
qed






lemma forEach_cong:
  "(\<And>s x. x \<in> set xs \<Longrightarrow> f s x = g s x) \<Longrightarrow> forEach f xs s = forEach g xs s"
  by (induction xs arbitrary: s) (auto split: sum.splits)

lemma forEach_map: "forEach f (map h xs) s = forEach (\<lambda>s x. f s (h x)) xs s"
  by (induction xs arbitrary: s) (auto split: sum.splits)

lemma pieceStep_not_free: "mark p \<noteq> ''FREE'' \<Longrightarrow> pieceStep e tms b f s p = Inr s"
  by (simp add: pieceStep_def)

lemma forEach_pieceStep_free:
  "forEach (pieceStep e tms b f) (filter (\<lambda>p. mark p = ''FREE'') ps) s
     = forEach (pieceStep e tms b f) ps s"
  by (induction ps arbitrary: s) (auto simp: pieceStep_not_free split: sum.splits)

lemma columnStep_freePieces:
  "columnStep e lst tms b s (freePieces c) = columnStep e lst tms b s c"
  by (simp add: columnStep_def freePieces_def Let_def forEach_pieceStep_free)

lemma dayStep_freeOnly: "dayStep e lst tms b s (freeOnly kv) = dayStep e lst tms b s kv"
proof (cases "snd kv")
  case None
  then show ?thesis by (simp add: dayStep_def freeOnly_def)
next
  case (Some one)
  show ?thesis
  proof (cases "columns one")
    case None
    with Some show ?thesis by (simp add: dayStep_def freeOnly_def)
  next
    case (Some cols)
    have "forEach (columnStep e lst tms b) (map freePieces cols) ([], snd s)
            = forEach (columnStep e lst tms b) cols ([], snd s)"
      by (simp add: forEach_map columnStep_freePieces)
    with Some \<open>snd kv = Some one\<close> show ?thesis
      by (auto simp: dayStep_def freeOnly_def split: sum.splits)
  qed
qed

lemma collectSlots_freeOnly:
  "collectSlots e lst tms b (map freeOnly data) = collectSlots e lst tms b data"
  by (simp add: collectSlots_def forEach_map dayStep_freeOnly)

lemma includesStr_iff: "includesStr pat s \<longleftrightarrow> (\<exists>a b. s = a @ pat @ b)"
proof (induction s)
  case Nil
  then show ?case by auto
next
  case (Cons c cs)
  show ?case
  proof
    assume "includesStr pat (c # cs)"
    then consider "prefix pat (c # cs)" | "includesStr pat cs" by auto
    then show "\<exists>a b. c # cs = a @ pat @ b"
    proof cases
      case 1
      then obtain b where "c # cs = pat @ b" by (auto simp: prefix_def)
      then have "c # cs = [] @ pat @ b" by simp
      then show ?thesis by blast
    next
      case 2
      with Cons.IH obtain a b where "cs = a @ pat @ b" by blast
      then have "c # cs = (c # a) @ pat @ b" by simp
      then show ?thesis by blast
    qed
  next
    assume "\<exists>a b. c # cs = a @ pat @ b"
    then obtain a b where ab: "c # cs = a @ pat @ b" by blast
    show "includesStr pat (c # cs)"
    proof (cases a)
      case Nil
      with ab have "prefix pat (c # cs)" by (simp add: prefix_def)
      then show ?thesis by simp
    next
      case (Cons a1 as)
      with ab have "cs = as @ pat @ b" by simp
      with Cons.IH have "includesStr pat cs" by blast
      then show ?thesis by simp
    qed
  qed
qed

lemma resultsOf_all_rejected:
  "\<forall>r \<in> set settled. \<exists>msg. snd r = Rejected msg \<Longrightarrow> foldl settle results settled = results"
  by (induction settled arbitrary: results) (auto simp: settle_def)

lemma toString_0: "toString 0 = ''0''"
  by (simp add: toString.simps digit_def)

lemma mailBody_includes: "includesStr content (mailBody content tournamentData)"
proof -
  have "\<exists>a b. mailBody content tournamentData = a @ content @ b"
    unfolding mailBody_def by (metis append_assoc)
  then show ?thesis by (simp add: includesStr_iff)
qed

lemma forEach_unchanged:
  "(\<And>s x. x \<in> set xs \<Longrightarrow> f s x = Inr s) \<Longrightarrow> forEach f xs s = Inr s"
  by (induction xs arbitrary: s) simp_all

lemma collectSlots_no_free:
  assumes "\<forall>kv \<in> set data. \<forall>one cols. snd kv = Some one \<longrightarrow> columns one = Some cols \<longrightarrow>
      (\<forall>c \<in> set cols. \<forall>p \<in> set (pieces c). mark p \<noteq> ''FREE'')"
  shows "collectSlots e lst tms b data = Inr ([], 0)"
proof -
  have col: "columnStep e lst tms b s c = Inr s" if "\<forall>p \<in> set (pieces c). mark p \<noteq> ''FREE''" for s c
    using that by (simp add: columnStep_def Let_def forEach_unchanged pieceStep_not_free)
  have day: "dayStep e lst tms b s kv = Inr s" if kv: "kv \<in> set data" for s kv
  proof (cases "snd kv")
    case None
    then show ?thesis by (simp add: dayStep_def)
  next
    case (Some one)
    show ?thesis
    proof (cases "columns one")
      case None
      with Some show ?thesis by (simp add: dayStep_def)
    next
      case (Some cols)
      with \<open>snd kv = Some one\<close> kv assms
      have "\<forall>c \<in> set cols. \<forall>p \<in> set (pieces c). mark p \<noteq> ''FREE''" by blast
      then have "forEach (columnStep e lst tms b) cols ([], snd s) = Inr ([], snd s)"
        by (intro forEach_unchanged col) simp
      with Some \<open>snd kv = Some one\<close> show ?thesis
        by (simp add: dayStep_def)
    qed
  qed
  show ?thesis
    unfolding collectSlots_def by (rule forEach_unchanged) (rule day)
qed

subsection \<open>When parseApiResponse does not throw\<close>

text \<open>\<^verbatim>\<open>toISOString\<close> is the only call of the filter that can throw, and only on an Invalid
  Date: with valid start instants the three loops run to their end.\<close>

lemma forEach_pieceStep_returns:
  "\<forall>p \<in> set ps. ini p \<noteq> None \<Longrightarrow> \<exists>s'. forEach (pieceStep e tms b f) ps s = Inr s'"
proof (induction ps arbitrary: s)
  case Nil
  show ?case by simp
next
  case (Cons p ps)
  then obtain t where "ini p = Some t" by auto
  then have "\<exists>s1. pieceStep e tms b f s p = Inr s1"
    by (simp add: pieceStep_cases)
  then obtain s1 where "pieceStep e tms b f s p = Inr s1" by blast
  moreover from Cons.prems have "\<forall>p \<in> set ps. ini p \<noteq> None" by simp
  from Cons.IH [OF this, of s1] obtain s' where "forEach (pieceStep e tms b f) ps s1 = Inr s'"
    by blast
  ultimately show ?case by simp
qed

lemma forEach_columnStep_returns:
  "\<forall>c \<in> set cols. \<forall>p \<in> set (pieces c). ini p \<noteq> None
    \<Longrightarrow> \<exists>s'. forEach (columnStep e lst tms b) cols s = Inr s'"
proof (induction cols arbitrary: s)
  case Nil
  show ?case by simp
next
  case (Cons c cols)
  then have "\<forall>p \<in> set (pieces c). ini p \<noteq> None" by simp
  from forEach_pieceStep_returns [OF this, of e tms b "facility_name c" s]
  have "\<exists>s1. columnStep e lst tms b s c = Inr s1"
    by (simp add: columnStep_def Let_def)
  then obtain s1 where "columnStep e lst tms b s c = Inr s1" by blast
  moreover from Cons.prems have "\<forall>c \<in> set cols. \<forall>p \<in> set (pieces c). ini p \<noteq> None" by simp
  from Cons.IH [OF this, of s1] obtain s' where "forEach (columnStep e lst tms b) cols s1 = Inr s'"
    by blast
  ultimately show ?case by simp
qed

lemma forEach_dayStep_returns:
  "\<forall>kv \<in> set data. \<forall>one cols. snd kv = Some one \<longrightarrow> columns one = Some cols \<longrightarrow>
      (\<forall>c \<in> set cols. \<forall>p \<in> set (pieces c). ini p \<noteq> None)
    \<Longrightarrow> \<exists>s'. forEach (dayStep e lst tms b) data s = Inr s'"
proof (induction data arbitrary: s)
  case Nil
  show ?case by simp
next
  case (Cons kv data)
  have "\<exists>s1. dayStep e lst tms b s kv = Inr s1"
  proof (cases "snd kv")
    case None
    then show ?thesis by (simp add: dayStep_def)
  next
    case (Some one)
    show ?thesis
    proof (cases "columns one")
      case None
      with Some show ?thesis by (simp add: dayStep_def)
    next
      case (Some cols)
      with \<open>snd kv = Some one\<close> Cons.prems
      have "\<forall>c \<in> set cols. \<forall>p \<in> set (pieces c). ini p \<noteq> None" by simp
      from forEach_columnStep_returns [OF this, of e lst tms b "([], snd s)"]
      obtain r where "forEach (columnStep e lst tms b) cols ([], snd s) = Inr r" by blast
      with Some \<open>snd kv = Some one\<close> show ?thesis
        by (cases r) (simp add: dayStep_def)
    qed
  qed
  then obtain s1 where "dayStep e lst tms b s kv = Inr s1" by blast
  moreover from Cons.prems
  have "\<forall>kv \<in> set data. \<forall>one cols. snd kv = Some one \<longrightarrow> columns one = Some cols \<longrightarrow>
      (\<forall>c \<in> set cols. \<forall>p \<in> set (pieces c). ini p \<noteq> None)" by simp
  from Cons.IH [OF this, of s1] obtain s' where "forEach (dayStep e lst tms b) data s1 = Inr s'"
    by blast
  ultimately show ?case by simp
qed

lemma collectSlots_returns:
  "\<forall>kv \<in> set data. \<forall>one cols. snd kv = Some one \<longrightarrow> columns one = Some cols \<longrightarrow>
      (\<forall>c \<in> set cols. \<forall>p \<in> set (pieces c). ini p \<noteq> None)
    \<Longrightarrow> \<exists>r. collectSlots e lst tms b data = Inr r"
  unfolding collectSlots_def by (rule forEach_dayStep_returns)


text \<open>An Invalid Date gives the start time NaN:NaN. When the start-time list does not hold
  that string and the dry-run flag is off, such a piece is skipped before
  \<^verbatim>\<open>toISOString\<close> is reached, and the filter returns on every input.\<close>

lemma pieceStep_returns_normal:
  assumes "''NaN:NaN'' \<notin> set tms"
  shows "\<exists>s'. pieceStep e tms False f s p = Inr s'"
proof (cases "ini p")
  case None
  with assms have "startTime e (ini p) \<notin> set tms"
    by (simp add: startTime_def padStart_def)
  then show ?thesis by (simp add: pieceStep_cases)
next
  case (Some t)
  then show ?thesis by (simp add: pieceStep_cases)
qed

lemma forEach_returns:
  "(\<And>s x. x \<in> set xs \<Longrightarrow> \<exists>s'. f s x = Inr s') \<Longrightarrow> \<exists>s'. forEach f xs s = Inr s'"
proof (induction xs arbitrary: s)
  case Nil
  show ?case by simp
next
  case (Cons x xs)
  from Cons.prems [of x s] obtain s1 where s1: "f s x = Inr s1" by auto
  have "\<exists>s'. forEach f xs s1 = Inr s'"
    by (rule Cons.IH) (simp add: Cons.prems)
  with s1 show ?case by simp
qed

lemma collectSlots_returns_normal:
  assumes "''NaN:NaN'' \<notin> set tms"
  shows "\<exists>r. collectSlots e lst tms False data = Inr r"
proof -
  have col: "\<exists>s'. columnStep e lst tms False s c = Inr s'" for s c
    using forEach_returns [of "pieces c" "pieceStep e tms False (facility_name c)" s]
      pieceStep_returns_normal [OF assms]
    by (simp add: columnStep_def Let_def)
  have day: "\<exists>s'. dayStep e lst tms False s kv = Inr s'" for s kv
  proof (cases "snd kv")
    case None
    then show ?thesis by (simp add: dayStep_def)
  next
    case (Some one)
    show ?thesis
    proof (cases "columns one")
      case None
      with Some show ?thesis by (simp add: dayStep_def)
    next
      case (Some cols)
      from forEach_returns [of cols "columnStep e lst tms False" "([], snd s)"] col
      obtain r where "forEach (columnStep e lst tms False) cols ([], snd s) = Inr r" by blast
      with Some \<open>snd kv = Some one\<close> show ?thesis
        by (cases r) (simp add: dayStep_def)
    qed
  qed
  show ?thesis
    unfolding collectSlots_def by (rule forEach_returns) (rule day)
qed

subsection \<open>The shape of a start time\<close>

lemma toString_two_digits:
  "n < 100 \<Longrightarrow> padStart 2 CHR ''0'' (toString n) = [digit (n div 10), digit (n mod 10)]"
proof (cases "n < 10")
  case True
  then show ?thesis
    by (simp add: toString.simps [of n] padStart_def digit_def)
next
  case False
  assume "n < 100"
  with False have "n div 10 < 10" by simp
  with False show ?thesis
    by (simp add: toString.simps [of n] toString.simps [of "n div 10"] padStart_def digit_def)
qed

lemma startTime_shape:
  "startTime e (Some t) =
    [digit (getHours e t div 10), digit (getHours e t mod 10), CHR '':'',
     digit (getMinutes e t div 10), digit (getMinutes e t mod 10)]
   \<and> getHours e t < 24 \<and> getMinutes e t < 60"
proof -
  have h: "getHours e t < 24" by (simp add: getHours_def nat_less_iff)
  have m: "getMinutes e t < 60" by (simp add: getMinutes_def nat_less_iff)
  from h m show ?thesis
    by (simp add: startTime_def toString_two_digits)
qed

subsection \<open>The filter\<close>



text \<open>
  Claim C10. The dry-run bypass does not reach the mark test. With the dry-run flag
  set (or not), \<^verbatim>\<open>parseApiResponse\<close> returns the same report and the same count as on
  the payloads with every piece whose mark is not FREE removed; and when no piece of
  any payload is FREE, it returns the notice that no slot was found and the count 0.
\<close>

theorem non_free_pieces_excluded:
  "parseApiResponse e cfg isDryRun data = parseApiResponse e cfg isDryRun (map freeOnly data)
   \<and> ((\<forall>kv \<in> set data. \<forall>one cols. snd kv = Some one \<longrightarrow> columns one = Some cols \<longrightarrow>
          (\<forall>c \<in> set cols. \<forall>p \<in> set (pieces c). mark p \<noteq> ''FREE''))
        \<longrightarrow> parseApiResponse e cfg True data
              = \<lparr> htmlContent = ''<p><strong>No available slots found</strong></p>'',
                  slotCount = 0 \<rparr>)"
proof -
  have "collectSlots e (whitelistFacilities cfg) (whitelistedStartTimes cfg) isDryRun
          (map freeOnly data)
        = collectSlots e (whitelistFacilities cfg) (whitelistedStartTimes cfg) isDryRun data"
    by (rule collectSlots_freeOnly)
  then have 1: "parseApiResponse e cfg isDryRun data
                  = parseApiResponse e cfg isDryRun (map freeOnly data)"
    by (simp add: parseApiResponse_def)
  have 2: "parseApiResponse e cfg True data
             = \<lparr> htmlContent = ''<p><strong>No available slots found</strong></p>'',
                 slotCount = 0 \<rparr>"
    if "\<forall>kv \<in> set data. \<forall>one cols. snd kv = Some one \<longrightarrow> columns one = Some cols \<longrightarrow>
          (\<forall>c \<in> set cols. \<forall>p \<in> set (pieces c). mark p \<noteq> ''FREE'')"
    using collectSlots_no_free [OF that]
    by (simp add: parseApiResponse_def renderSlots_def noSlotsNotice_def)
  from 1 2 show ?thesis by blast
qed

theorem non_free_pieces_excluded_witness:
  "parseApiResponse utcEnv (config ''me'') True [eveningDay]
     = parseApiResponse utcEnv (config ''me'') True
         [dayOf ''2024-05-01''
            [court ''Pista 1'' [freePiece 1714590000000, freePiece 1714568400000],
             court ''Pista 9'' [freePiece 1714590000000]]]
   \<and> parseApiResponse utcEnv (config ''me'') True
        [dayOf ''2024-05-01'' [court ''Pista 1'' [busyPiece 1714590000000]]]
       = \<lparr> htmlContent = ''<p><strong>No available slots found</strong></p>'', slotCount = 0 \<rparr>"
proof -
  let ?busy = "[dayOf ''2024-05-01'' [court ''Pista 1'' [busyPiece 1714590000000]]]"
  have "map freeOnly [eveningDay]
          = [dayOf ''2024-05-01''
               [court ''Pista 1'' [freePiece 1714590000000, freePiece 1714568400000],
                court ''Pista 9'' [freePiece 1714590000000]]]"
    by (simp add: freeOnly_def eveningDay_def dayOf_def court_def freePieces_def
        freePiece_def busyPiece_def)
  with non_free_pieces_excluded [of utcEnv "config ''me''" True "[eveningDay]"]
  have 1: "parseApiResponse utcEnv (config ''me'') True [eveningDay]
     = parseApiResponse utcEnv (config ''me'') True
         [dayOf ''2024-05-01''
            [court ''Pista 1'' [freePiece 1714590000000, freePiece 1714568400000],
             court ''Pista 9'' [freePiece 1714590000000]]]"
    by simp
  have h: "\<forall>kv \<in> set ?busy. \<forall>one cols. snd kv = Some one \<longrightarrow> columns one = Some cols \<longrightarrow>
          (\<forall>c \<in> set cols. \<forall>p \<in> set (pieces c). mark p \<noteq> ''FREE'')"
    by (simp add: dayOf_def court_def busyPiece_def)
  with non_free_pieces_excluded [of utcEnv "config ''me''" True ?busy]
  have 2: "parseApiResponse utcEnv (config ''me'') True ?busy
       = \<lparr> htmlContent = ''<p><strong>No available slots found</strong></p>'', slotCount = 0 \<rparr>"
    by blast
  from 1 2 show ?thesis by simp
qed

subsection \<open>The two lists are inclusion lists\<close>




subsection \<open>Dates of slots and keys of the matrix\<close>






subsection \<open>Grouping a day's slots by start label\<close>















subsection \<open>Order of the rows\<close>

text \<open>
  Claim C3: one row for each distinct start time of the day, rows in ascending order of
  time. The code has one row for each distinct start label (lemma \<open>sortedTimes_eq\<close>),
  but it sorts the rows as strings on the 12-hour label, so the order of time is lost
  between morning and afternoon and around 12 o'clock. In dry-run mode, with court 1
  free at 09:00 and at 13:00, the row of 01:00 PM comes before the row of 09:00 AM.
\<close>

theorem afternoon_row_before_morning_row:
  "htmlContent (parseApiResponse utcEnv (config ''me'') True
      [dayOf ''2024-05-01''
         [court ''Pista 1'' [freePiece 1714554000000, freePiece 1714568400000]]])
     = ''<h3>Wednesday, May 1, 2024</h3>'' @ tableOpen
         @ ''<tr><th>Pista 1</th><th>Pista 2</th><th>Pista Cristal</th><th>Pista San Pablo</th></tr>''
         @ ''<tr><td>01:00 PM</td><td></td><td></td><td></td></tr>''
         @ ''<tr><td>09:00 AM</td><td></td><td></td><td></td></tr>''
         @ ''</table><br>''
   \<and> startTime utcEnv (Some 1714554000000) = ''09:00''
   \<and> startTime utcEnv (Some 1714568400000) = ''13:00''"
  by code_simp

subsection \<open>The report\<close>

text \<open>
  Claim C7. When \<^verbatim>\<open>availableSlots\<close> has no key, the report is the notice
  \<^verbatim>\<open><p><strong>No available slots found</strong></p>\<close> and holds no table element.
\<close>

theorem empty_matrix_renders_notice:
  assumes "collectSlots e (whitelistFacilities cfg) (whitelistedStartTimes cfg) isDryRun data
             = Inr (availableSlots, n)"
    and "length (map fst availableSlots) = 0"
  shows "htmlContent (parseApiResponse e cfg isDryRun data)
           = ''<p><strong>No available slots found</strong></p>''
         \<and> \<not> includesStr ''<table'' (htmlContent (parseApiResponse e cfg isDryRun data))"
proof -
  from assms have "htmlContent (parseApiResponse e cfg isDryRun data) = noSlotsNotice"
    by (simp add: parseApiResponse_def renderSlots_def)
  moreover have "\<not> includesStr ''<table'' noSlotsNotice"
    by (simp add: noSlotsNotice_def)
  ultimately show ?thesis by (simp add: noSlotsNotice_def)
qed

theorem empty_matrix_renders_notice_witness:
  "collectSlots utcEnv (whitelistFacilities (config ''me'')) (whitelistedStartTimes (config ''me''))
       True [dayOf ''2024-05-01'' [court ''Pista 1'' [busyPiece 1714590000000]]]
     = Inr ([], 0)
   \<and> length (map fst ([] :: (string \<times> freeSlot list) list)) = 0
   \<and> htmlContent (parseApiResponse utcEnv (config ''me'') True
        [dayOf ''2024-05-01'' [court ''Pista 1'' [busyPiece 1714590000000]]])
       = ''<p><strong>No available slots found</strong></p>''
   \<and> \<not> includesStr ''<table'' (htmlContent (parseApiResponse utcEnv (config ''me'') True
        [dayOf ''2024-05-01'' [court ''Pista 1'' [busyPiece 1714590000000]]]))"
proof -
  have h: "collectSlots utcEnv (whitelistFacilities (config ''me''))
             (whitelistedStartTimes (config ''me'')) True
             [dayOf ''2024-05-01'' [court ''Pista 1'' [busyPiece 1714590000000]]]
           = Inr ([], 0)"
    by code_simp
  have k: "length (map fst ([] :: (string \<times> freeSlot list) list)) = 0"
    by simp
  from empty_matrix_renders_notice [OF h k] h k show ?thesis by blast
qed

subsection \<open>The run\<close>

text \<open>
  Claim C5. If every request is rejected, \<^verbatim>\<open>results\<close> stays empty and the run still goes
  through parsing, rendering and dispatch: it ends with exactly one effect, one message
  handed to the mailer (or, in dry-run mode, one write of tmp.html), whose body holds
  the notice that no slot was found and whose subject counts 0 slots.
\<close>

theorem all_fetches_fail_still_one_report:
  assumes "\<forall>r \<in> set settled. \<exists>msg. snd r = Rejected msg"
  shows "\<exists>m. scrapeWebsite e cfg isDryRun settled tournamentHtml
               = (if isDryRun then [WriteFile ''tmp.html'' (html m)] else [SendMail m])
            \<and> includesStr ''<p><strong>No available slots found</strong></p>'' (html m)
            \<and> subject m = ''0 free slots available''"
proof -
  from assms have "resultsOf settled = []"
    by (simp add: resultsOf_def resultsOf_all_rejected)
  then have p: "parseApiResponse e cfg isDryRun (resultsOf settled)
                  = \<lparr> htmlContent = noSlotsNotice, slotCount = 0 \<rparr>"
    by (simp add: parseApiResponse_def collectSlots_def renderSlots_def)
  let ?m = "buildMail cfg noSlotsNotice 0 tournamentHtml"
  have "scrapeWebsite e cfg isDryRun settled tournamentHtml
          = (if isDryRun then [WriteFile ''tmp.html'' (html ?m)] else [SendMail ?m])"
    by (simp add: scrapeWebsite_def p sendEmail_def Let_def)
  moreover have "includesStr noSlotsNotice (html ?m)"
    by (simp add: buildMail_def mailBody_includes)
  moreover have "subject ?m = ''0 free slots available''"
    by (simp add: buildMail_def toString_0)
  ultimately show ?thesis unfolding noSlotsNotice_def by blast
qed

theorem all_fetches_fail_still_one_report_witness:
  "\<exists>m. scrapeWebsite utcEnv (config ''me'') False
              [(''2024-05-01'', Rejected ''Network Error''),
               (''2024-05-02'', Rejected ''Request failed with status code 500'')] []
            = (if False then [WriteFile ''tmp.html'' (html m)] else [SendMail m])
          \<and> includesStr ''<p><strong>No available slots found</strong></p>'' (html m)
          \<and> subject m = ''0 free slots available''"
proof -
  have h: "\<forall>r \<in> set [(''2024-05-01'', Rejected ''Network Error''),
                 (''2024-05-02'', Rejected ''Request failed with status code 500'')].
      \<exists>msg. snd r = Rejected msg"
    by simp
  from all_fetches_fail_still_one_report [OF h, of utcEnv "config ''me''" False "[]"]
  show ?thesis .
qed

subsection \<open>The dates to query\<close>

lemma dateLoop_eq:
  "dateLoop e now skip horizon i requests =
    requests @ map (\<lambda>j. formatDate (plusDays now j))
      (filter (\<lambda>j. \<not> (skip \<and> (getDay e (plusDays now j) = 0 \<or> getDay e (plusDays now j) = 6)))
         [i..<horizon])"
proof (induction e now skip horizon i requests rule: dateLoop.induct)
  case (1 e now skip horizon i requests)
  show ?case
  proof (cases "i < horizon")
    case False
    then show ?thesis by (subst dateLoop.simps) simp
  next
    case True
    then have upt: "[i..<horizon] = i # [Suc i..<horizon]"
      by (rule upt_conv_Cons)
    show ?thesis
    proof (cases "skip \<and> (getDay e (plusDays now i) = 0 \<or> getDay e (plusDays now i) = 6)")
      case weekend: True
      with True "1.IH"(1) [OF True refl] show ?thesis
        by (subst dateLoop.simps) (simp add: upt Let_def)
    next
      case weekday: False
      with True "1.IH"(2) [OF True refl] show ?thesis
        by (subst dateLoop.simps) (auto simp: upt Let_def)
    qed
  qed
qed

lemma plusDays_day: "plusDays now j div msPerDay = now div msPerDay + int j"
  by (simp add: plusDays_def msPerDay_def)

text \<open>In any time zone the requested dates are the UTC dates of \<open>now\<close> plus \<open>j\<close> days, for
  increasing \<open>j\<close> below the horizon, at most one for each \<open>j\<close>.\<close>

lemma queryDates_days:
  "queryDates e now skip horizon =
    map (\<lambda>j. isoDay (now div msPerDay + int j))
      (filter (\<lambda>j. \<not> (skip \<and> (getDay e (plusDays now j) = 0 \<or> getDay e (plusDays now j) = 6)))
         [0..<horizon])"
  by (simp add: queryDates_def dateLoop_eq formatDate_def isoDate_def plusDays_day)

lemma queryDates_length: "length (queryDates e now skip horizon) \<le> horizon"
  using length_filter_le [of _ "[0..<horizon]"] by (simp add: queryDates_days)

text \<open>When the local zone is UTC, as on the workflow's runner, the day whose weekday is
  tested is the day whose date is requested: no requested date is a Saturday or a
  Sunday.\<close>

lemma queryDates_utc:
  assumes "tzOffset e = 0"
  shows "queryDates e now skip horizon =
    map isoDay
      (filter (\<lambda>d. \<not> (skip \<and> (weekDay d = 0 \<or> weekDay d = 6)))
         (map (\<lambda>j. now div msPerDay + int j) [0..<horizon]))"
  using assms
  by (simp add: queryDates_days getDay_def localTime_def plusDays_day filter_map comp_def)

lemma queryDates_utc_window:
  assumes "tzOffset e = 0"
  shows "\<exists>days. queryDates e now skip horizon = map isoDay days
           \<and> length days \<le> horizon \<and> sorted_wrt (<) days
           \<and> (\<forall>d \<in> set days. now div msPerDay \<le> d \<and> d < now div msPerDay + int horizon)
           \<and> (skip \<longrightarrow> (\<forall>d \<in> set days. weekDay d \<noteq> 0 \<and> weekDay d \<noteq> 6))"
proof -
  let ?all = "map (\<lambda>j. now div msPerDay + int j) [0..<horizon]"
  let ?days = "filter (\<lambda>d. \<not> (skip \<and> (weekDay d = 0 \<or> weekDay d = 6))) ?all"
  have "sorted_wrt (<) ?all"
    by (simp add: sorted_wrt_map)
  then have "sorted_wrt (<) ?days"
    by (rule sorted_wrt_filter)
  moreover have "length ?days \<le> horizon"
    using length_filter_le [of _ ?all] by simp
  moreover have "\<forall>d \<in> set ?days. now div msPerDay \<le> d \<and> d < now div msPerDay + int horizon"
    by auto
  moreover have "skip \<longrightarrow> (\<forall>d \<in> set ?days. weekDay d \<noteq> 0 \<and> weekDay d \<noteq> 6)"
    by auto
  moreover have "queryDates e now skip horizon = map isoDay ?days"
    by (rule queryDates_utc [OF assms])
  ultimately show ?thesis by blast
qed

text \<open>
  Claim C8: at most \<open>horizon\<close> dates, today plus \<open>i\<close> for increasing \<open>i\<close>, and none of them a
  Saturday or a Sunday when weekends are skipped. The window has at most \<open>horizon\<close>
  dates (lemma \<open>queryDates_length\<close>) for increasing day offsets (lemma
  \<open>queryDates_days\<close>), and on a machine in UTC none of them is a Saturday or a Sunday
  (lemma \<open>queryDates_utc_window\<close>). Elsewhere the code tests the weekday of the local
  date and requests the UTC date. On a machine two hours east of UTC, started on Monday
  2024-05-06 at 00:30 local time, which is Sunday 2024-05-05 22:30 UTC, the first date
  requested is Sunday 2024-05-05 and the last is Sunday 2024-05-12.
\<close>

theorem sunday_requested_east_of_utc:
  "requestDates madridEnv 1714948200000
     = [''2024-05-05'', ''2024-05-06'', ''2024-05-07'', ''2024-05-08'', ''2024-05-09'',
        ''2024-05-12'']
   \<and> getDay madridEnv 1714948200000 = 1
   \<and> isoDay 19848 = ''2024-05-05'' \<and> weekDay 19848 = 0
   \<and> isoDay 19855 = ''2024-05-12'' \<and> weekDay 19855 = 0"
  by code_simp

end
